theory Spec2Isabelle
  imports Main
begin

section \<open>The hot-spot reporter of \<open>scripts/check-hotspots.py\<close>\<close>

text \<open>
  The script loads a level document with \<open>json.load\<close>, walks \<open>d['layers']\<close> and, for
  each layer whose \<open>type\<close> is \<open>'hot_spots'\<close>, prints a header, one line per marker cell of
  \<open>layer['world']['tiles']\<close> and a total. The model below follows the script statement by
  statement. What the script prints is the list of lines it has printed so far; an
  uncaught Python exception ends the run and keeps the lines already printed.
\<close>

subsection \<open>Parsed JSON values\<close>

text \<open>
  The value \<open>json.load\<close> returns. A Python \<open>dict\<close> is an association list read with
  \<open>map_of\<close> (its keys are distinct: \<open>json.load\<close> keeps the last of two equal keys);
  Python integers are unbounded, hence \<open>int\<close>. JSON numbers with a fraction
  or an exponent (Python \<open>float\<close>) are outside this model.
\<close>

datatype json =
    JNull
  | JBool bool
  | JInt int
  | JString string
  | JArray "json list"
  | JObject "(string \<times> json) list"

datatype error =
    KeyError string
  | TypeError
  | FileNotFoundError
  | JSONDecodeError

text \<open>\<open>obj[key]\<close> with a string key: only a \<open>dict\<close> accepts it.\<close>

fun py_getitem :: "json \<Rightarrow> string \<Rightarrow> error + json" where
  "py_getitem (JObject kvs) k =
     (case map_of kvs k of None \<Rightarrow> Inl (KeyError k) | Some v \<Rightarrow> Inr v)"
| "py_getitem _ k = Inl TypeError"

text \<open>
  \<open>for x in obj\<close> and \<open>enumerate(obj)\<close>: a list yields its elements, a dict its keys, a
  string its characters as one-character strings; nothing else is iterable.
\<close>

fun py_iter :: "json \<Rightarrow> error + json list" where
  "py_iter (JArray xs) = Inr xs"
| "py_iter (JObject kvs) = Inr (map (\<lambda>kv. JString (fst kv)) kvs)"
| "py_iter (JString s) = Inr (map (\<lambda>c. JString [c]) s)"
| "py_iter _ = Inl TypeError"

subsection \<open>Decimal rendering of integers\<close>

definition digit :: "nat \<Rightarrow> char" where
  "digit n = ''0123456789'' ! n"

fun str_nat :: "nat \<Rightarrow> string" where
  "str_nat n = (if n < 10 then [digit n] else str_nat (n div 10) @ [digit (n mod 10)])"

declare str_nat.simps [simp del]

definition str_int :: "int \<Rightarrow> string" where
  "str_int i = (if i < 0 then CHR ''-'' # str_nat (nat (- i)) else str_nat (nat i))"

subsection \<open>Tile values\<close>

text \<open>
  A tile value that can be used as a dictionary key. Lists and dicts are unhashable:
  \<open>hot_spot_names.get\<close> raises \<open>TypeError\<close> on them.
\<close>

datatype scalar = SNone | SBool bool | SInt int | SStr string

fun py_hashable :: "json \<Rightarrow> error + scalar" where
  "py_hashable JNull = Inr SNone"
| "py_hashable (JBool b) = Inr (SBool b)"
| "py_hashable (JInt n) = Inr (SInt n)"
| "py_hashable (JString s) = Inr (SStr s)"
| "py_hashable (JArray _) = Inl TypeError"
| "py_hashable (JObject _) = Inl TypeError"

text \<open>\<open>str(val)\<close>, as the f-strings format it.\<close>

fun py_str :: "scalar \<Rightarrow> string" where
  "py_str SNone = ''None''"
| "py_str (SBool b) = (if b then ''True'' else ''False'')"
| "py_str (SInt n) = str_int n"
| "py_str (SStr s) = s"

text \<open>The table \<open>hot_spot_names\<close> (lines 10 to 19), in source order.\<close>

definition hot_spot_names :: "(int \<times> string) list" where
  "hot_spot_names =
    [(0, ''NONE''),
     (1, ''GO_RIGHT''), (2, ''GO_LEFT''), (3, ''GO_UP''), (4, ''GO_DOWN''),
     (5, ''GO_UP_RIGHT''), (6, ''GO_UP_LEFT''), (7, ''GO_DOWN_RIGHT''), (8, ''GO_DOWN_LEFT''),
     (9, ''WAIT_SHORT''), (10, ''WAIT_MEDIUM''), (11, ''WAIT_LONG''),
     (12, ''ATTACK''), (13, ''TALK''), (14, ''WALK_AND_TALK''),
     (15, ''TAKE_CAMERA_FOCUS''), (16, ''RELEASE_CAMERA_FOCUS''),
     (17, ''END_LEVEL''), (18, ''GAME_EVENT''),
     (- 2, ''DEATH''), (- 3, ''COLLECT'')]"

text \<open>
  The integer a key compares equal to, if any: in Python \<open>True == 1\<close> and \<open>False == 0\<close>
  with equal hashes, so a boolean finds the entry of 1 or 0; \<open>None\<close> and strings equal
  no integer.
\<close>

fun int_key :: "scalar \<Rightarrow> int option" where
  "int_key (SInt n) = Some n"
| "int_key (SBool b) = Some (if b then 1 else 0)"
| "int_key SNone = None"
| "int_key (SStr s) = None"

text \<open>\<open>hot_spot_names.get(val, f'TYPE_{val}')\<close> (line 28).\<close>

definition names_get :: "scalar \<Rightarrow> string" where
  "names_get val =
     (case int_key val of
        None \<Rightarrow> ''TYPE_'' @ py_str val
      | Some n \<Rightarrow> (case map_of hot_spot_names n of
                    None \<Rightarrow> ''TYPE_'' @ py_str val
                  | Some name \<Rightarrow> name))"

text \<open>
  \<open>val != -1 and val != 0\<close> (line 27). \<open>False\<close> equals 0; \<open>True\<close>, \<open>None\<close>, strings, lists
  and dicts equal neither -1 nor 0.
\<close>

fun is_marker :: "json \<Rightarrow> bool" where
  "is_marker (JInt n) = (n \<noteq> - 1 \<and> n \<noteq> 0)"
| "is_marker (JBool b) = b"
| "is_marker _ = True"

subsection \<open>Printed lines\<close>

text \<open>
  One constructor per \<open>print\<close> statement, holding the values its f-string formats:
  line 23, line 31 (\<open>row_idx\<close>, \<open>col_idx\<close>, \<open>val\<close>, \<open>name\<close>, \<open>pixel_x\<close>, \<open>pixel_y\<close>), line 33.
\<close>

datatype line =
    HeaderLine string
  | CellLine nat nat scalar string nat nat
  | TotalLine nat

fun render :: "line \<Rightarrow> string" where
  "render (HeaderLine level_file) = ''Hot spots in '' @ level_file @ '':''"
| "render (CellLine row_idx col_idx val name pixel_x pixel_y) =
     ''  ['' @ str_nat row_idx @ ''][''  @ str_nat col_idx @ ''] = '' @ py_str val
       @ '' ('' @ name @ '') -> pixel ('' @ str_nat pixel_x @ '', '' @ str_nat pixel_y @ '')''"
| "render (TotalLine count) = ''Total: '' @ str_nat count @ '' hot spots''"

text \<open>Standard output: every \<open>print\<close> ends its line with a newline.\<close>

definition stdout :: "line list \<Rightarrow> string" where
  "stdout ls = concat (map (\<lambda>l. render l @ [CHR 0x0A]) ls)"

subsection \<open>The loops\<close>

text \<open>
  A run returns the lines it printed and either the exception that ended it or its
  value.
\<close>

type_synonym 'a run = "line list \<times> (error + 'a)"

text \<open>
  Lines 26 to 32: \<open>for col_idx, val in enumerate(row)\<close>. The arguments are the row
  index, the next column index, the remaining values and the running \<open>count\<close>.
\<close>

fun col_loop :: "nat \<Rightarrow> nat \<Rightarrow> json list \<Rightarrow> nat \<Rightarrow> nat run" where
  "col_loop row_idx col_idx [] count = ([], Inr count)"
| "col_loop row_idx col_idx (val # rest) count =
     (if is_marker val then
        (case py_hashable val of
           Inl e \<Rightarrow> ([], Inl e)
         | Inr v \<Rightarrow>
             (case col_loop row_idx (Suc col_idx) rest (count + 1) of
                (out, r) \<Rightarrow>
                  (CellLine row_idx col_idx v (names_get v) (col_idx * 32) (row_idx * 32) # out, r)))
      else col_loop row_idx (Suc col_idx) rest count)"

text \<open>Lines 25 to 32: \<open>for row_idx, row in enumerate(layer['world']['tiles'])\<close>.\<close>

fun row_loop :: "nat \<Rightarrow> json list \<Rightarrow> nat \<Rightarrow> nat run" where
  "row_loop row_idx [] count = ([], Inr count)"
| "row_loop row_idx (row # rest) count =
     (case py_iter row of
        Inl e \<Rightarrow> ([], Inl e)
      | Inr vals \<Rightarrow>
          (case col_loop row_idx 0 vals count of
             (out, Inl e) \<Rightarrow> (out, Inl e)
           | (out, Inr count') \<Rightarrow>
               (case row_loop (Suc row_idx) rest count' of
                  (out', r) \<Rightarrow> (out @ out', r))))"

text \<open>
  Lines 22 to 33, the body of the layer loop. The header is printed before
  \<open>layer['world']['tiles']\<close> is evaluated, so it stays when that lookup raises.
\<close>

definition layer_body :: "string \<Rightarrow> json \<Rightarrow> unit run" where
  "layer_body level_file layer =
     (case py_getitem layer ''type'' of
        Inl e \<Rightarrow> ([], Inl e)
      | Inr t \<Rightarrow>
          if t = JString ''hot_spots'' then
            (case py_getitem layer ''world'' of
               Inl e \<Rightarrow> ([HeaderLine level_file], Inl e)
             | Inr world \<Rightarrow>
                 (case py_getitem world ''tiles'' of
                    Inl e \<Rightarrow> ([HeaderLine level_file], Inl e)
                  | Inr tiles \<Rightarrow>
                      (case py_iter tiles of
                         Inl e \<Rightarrow> ([HeaderLine level_file], Inl e)
                       | Inr rows \<Rightarrow>
                           (case row_loop 0 rows 0 of
                              (out, Inl e) \<Rightarrow> (HeaderLine level_file # out, Inl e)
                            | (out, Inr count) \<Rightarrow>
                                (HeaderLine level_file # out @ [TotalLine count], Inr ())))))
          else ([], Inr ()))"

text \<open>Line 21: \<open>for layer in d['layers']\<close>. There is no \<open>break\<close> in the loop.\<close>

fun layer_loop :: "string \<Rightarrow> json list \<Rightarrow> unit run" where
  "layer_loop level_file [] = ([], Inr ())"
| "layer_loop level_file (layer # rest) =
     (case layer_body level_file layer of
        (out, Inl e) \<Rightarrow> (out, Inl e)
      | (out, Inr _) \<Rightarrow>
          (case layer_loop level_file rest of (out', r) \<Rightarrow> (out @ out', r)))"

text \<open>Lines 21 to 33 on a parsed document \<open>d\<close>.\<close>

definition report :: "string \<Rightarrow> json \<Rightarrow> unit run" where
  "report level_file d =
     (case py_getitem d ''layers'' of
        Inl e \<Rightarrow> ([], Inl e)
      | Inr layers \<Rightarrow>
          (case py_iter layers of
             Inl e \<Rightarrow> ([], Inl e)
           | Inr ls \<Rightarrow> layer_loop level_file ls))"

subsection \<open>The whole script\<close>

text \<open>
  What a run can see: the argument vector and the files, a map from paths to contents.
  \<open>json.loads\<close> is a parameter: \<open>None\<close> is a \<open>JSONDecodeError\<close>.
\<close>

record world =
  argv :: "string list"
  files :: "string \<rightharpoonup> string"

text \<open>Line 5.\<close>

definition level_file :: "string list \<Rightarrow> string" where
  "level_file args =
     (if length args > 1 then args ! 1 else ''public/assets/levels/level_0_1_sewer.json'')"

text \<open>Lines 5 to 33.\<close>

definition main :: "(string \<Rightarrow> json option) \<Rightarrow> world \<Rightarrow> unit run" where
  "main json_loads w =
     (case files w (level_file (argv w)) of
        None \<Rightarrow> ([], Inl FileNotFoundError)
      | Some text \<Rightarrow>
          (case json_loads text of
             None \<Rightarrow> ([], Inl JSONDecodeError)
           | Some d \<Rightarrow> report (level_file (argv w)) d))"

subsection \<open>Vocabulary of the specification\<close>

text \<open>
  The data model of the specification: a tile grid is a sequence of rows of integers.
  \<open>tiles_of\<close> is such a grid as \<open>json.load\<close> returns it.
\<close>

definition tiles_of :: "int list list \<Rightarrow> json" where
  "tiles_of g = JArray (map (\<lambda>row. JArray (map JInt row)) g)"

text \<open>The two sentinel values, "no marker present".\<close>

definition sentinel :: "int \<Rightarrow> bool" where
  "sentinel v = (v = - 1 \<or> v = 0)"

text \<open>The layers the loop of line 21 walks: \<open>d['layers']\<close>, iterated.\<close>

definition layers_of :: "json \<Rightarrow> error + json list" where
  "layers_of d =
     (case py_getitem d ''layers'' of Inl e \<Rightarrow> Inl e | Inr layers \<Rightarrow> py_iter layers)"

text \<open>A layer whose \<open>type\<close> equals \<open>"hot_spots"\<close>, and one that has another \<open>type\<close>.\<close>

definition is_hot_spots :: "json \<Rightarrow> bool" where
  "is_hot_spots layer = (py_getitem layer ''type'' = Inr (JString ''hot_spots''))"

definition other_layer :: "json \<Rightarrow> bool" where
  "other_layer layer =
     (case py_getitem layer ''type'' of Inl e \<Rightarrow> False | Inr t \<Rightarrow> t \<noteq> JString ''hot_spots'')"

text \<open>A hot-spots layer whose \<open>world.tiles\<close> is the grid \<open>g\<close>; it may have further fields.\<close>

definition hot_spots_grid :: "json \<Rightarrow> int list list \<Rightarrow> bool" where
  "hot_spots_grid layer g =
     (is_hot_spots layer \<and>
      (case py_getitem layer ''world'' of
         Inl e \<Rightarrow> False
       | Inr world \<Rightarrow> py_getitem world ''tiles'' = Inr (tiles_of g)))"

text \<open>
  The line the specification gives for the cell at row \<open>i\<close>, column \<open>j\<close> with value \<open>v\<close>,
  and the lines of a grid in row-major ascending order, one per cell that is not a
  sentinel.
\<close>

definition cell_line :: "nat \<Rightarrow> nat \<Rightarrow> int \<Rightarrow> line" where
  "cell_line i j v = CellLine i j (SInt v) (names_get (SInt v)) (j * 32) (i * 32)"

definition row_major_lines :: "int list list \<Rightarrow> line list" where
  "row_major_lines g =
     concat (map (\<lambda>i. concat (map (\<lambda>j. if sentinel (g ! i ! j) then [] else [cell_line i j (g ! i ! j)])
                                  [0..<length (g ! i)]))
                 [0..<length g])"

text \<open>The number of cells of a grid that are not sentinels.\<close>

definition marker_count :: "int list list \<Rightarrow> nat" where
  "marker_count g = sum_list (map (\<lambda>row. length (filter (\<lambda>v. \<not> sentinel v) row)) g)"

text \<open>The lines of a run that are about the cell at row \<open>i\<close>, column \<open>j\<close>.\<close>

fun line_at :: "nat \<Rightarrow> nat \<Rightarrow> line \<Rightarrow> bool" where
  "line_at i j (CellLine row_idx col_idx val name pixel_x pixel_y) = (row_idx = i \<and> col_idx = j)"
| "line_at i j _ = False"

text \<open>
  The lines of one row and of a grid as \<open>enumerate\<close> walks them, starting at column \<open>c\<close>
  and at row \<open>r\<close>.
\<close>

definition row_lines :: "nat \<Rightarrow> nat \<Rightarrow> int list \<Rightarrow> line list" where
  "row_lines i c vs =
     concat (map (\<lambda>(j, v). if sentinel v then [] else [cell_line i j v]) (List.enumerate c vs))"

definition grid_lines :: "nat \<Rightarrow> int list list \<Rightarrow> line list" where
  "grid_lines r g = concat (map (\<lambda>(i, row). row_lines i 0 row) (List.enumerate r g))"

text \<open>
  The cell a line is about, and the strict row-major order on lines: an earlier row, or
  the same row and an earlier column.
\<close>

fun cell_pos :: "line \<Rightarrow> nat \<times> nat" where
  "cell_pos (CellLine row_idx col_idx val name pixel_x pixel_y) = (row_idx, col_idx)"
| "cell_pos _ = (0, 0)"

definition row_major_before :: "line \<Rightarrow> line \<Rightarrow> bool" where
  "row_major_before a b =
     (fst (cell_pos a) < fst (cell_pos b)
      \<or> (fst (cell_pos a) = fst (cell_pos b) \<and> snd (cell_pos a) < snd (cell_pos b)))"

section \<open>The scan of an integer grid\<close>

lemma col_loop_ints:
  "col_loop i c (map JInt vs) n = (row_lines i c vs, Inr (n + length (row_lines i c vs)))"
  by (induction vs arbitrary: c n) (auto simp: row_lines_def sentinel_def cell_line_def)

lemma row_lines_length: "length (row_lines i c vs) = length (filter (\<lambda>v. \<not> sentinel v) vs)"
  by (induction vs arbitrary: c) (auto simp: row_lines_def)

lemma row_loop_ints:
  "row_loop r (map (\<lambda>row. JArray (map JInt row)) g) n
     = (grid_lines r g, Inr (n + length (grid_lines r g)))"
  by (induction g arbitrary: r n) (auto simp: grid_lines_def col_loop_ints)

lemma grid_lines_length: "length (grid_lines r g) = marker_count g"
  by (induction g arbitrary: r) (auto simp: grid_lines_def marker_count_def row_lines_length)

lemma enumerate_nth: "List.enumerate 0 xs = map (\<lambda>i. (i, xs ! i)) [0..<length xs]"
  by (rule nth_equalityI) (auto simp: nth_enumerate_eq)

lemma row_lines_index:
  "row_lines i 0 vs =
     concat (map (\<lambda>j. if sentinel (vs ! j) then [] else [cell_line i j (vs ! j)]) [0..<length vs])"
  by (simp add: row_lines_def enumerate_nth comp_def)

lemma grid_lines_row_major: "grid_lines 0 g = row_major_lines g"
  by (simp add: grid_lines_def row_major_lines_def enumerate_nth comp_def row_lines_index)

lemma row_major_lines_length: "length (row_major_lines g) = marker_count g"
  using grid_lines_length [of 0 g] by (simp add: grid_lines_row_major)

lemma row_loop_tiles:
  "row_loop 0 (map (\<lambda>row. JArray (map JInt row)) g) 0 = (row_major_lines g, Inr (marker_count g))"
  by (simp add: row_loop_ints row_major_lines_length grid_lines_row_major)

section \<open>Layers\<close>

lemma layer_body_grid:
  assumes "hot_spots_grid layer g"
  shows "layer_body path layer
           = (HeaderLine path # row_major_lines g @ [TotalLine (marker_count g)], Inr ())"
  using assms
  by (auto simp: hot_spots_grid_def is_hot_spots_def layer_body_def tiles_of_def row_loop_tiles
           split: sum.splits)

lemma layer_body_other:
  assumes "other_layer layer"
  shows "layer_body path layer = ([], Inr ())"
  using assms by (auto simp: other_layer_def layer_body_def split: sum.splits)

lemma layer_body_not_hot_spots:
  assumes "\<not> is_hot_spots layer"
  shows "fst (layer_body path layer) = []"
  using assms by (auto simp: is_hot_spots_def layer_body_def split: sum.splits)

lemma layer_loop_no_hot_spots:
  assumes "\<forall>l\<in>set ls. \<not> is_hot_spots l"
  shows "fst (layer_loop path ls) = []"
  using assms
proof (induction ls)
  case Nil
  then show ?case by simp
next
  case (Cons layer rest)
  have "fst (layer_body path layer) = []"
    using Cons.prems by (simp add: layer_body_not_hot_spots)
  moreover have "fst (layer_loop path rest) = []" using Cons by simp
  ultimately show ?case
    by (cases "layer_body path layer") (auto split: sum.splits prod.splits)
qed

lemma layer_loop_append:
  assumes "snd (layer_loop path xs) = Inr ()"
  shows "layer_loop path (xs @ ys)
           = (fst (layer_loop path xs) @ fst (layer_loop path ys), snd (layer_loop path ys))"
  using assms by (induction xs) (auto split: prod.splits sum.splits)

lemma layer_loop_ok:
  assumes "\<forall>l\<in>set ls. snd (layer_body path l) = Inr ()"
  shows "layer_loop path ls = (concat (map (\<lambda>l. fst (layer_body path l)) ls), Inr ())"
  using assms by (induction ls) (auto split: prod.splits sum.splits)

lemma layer_loop_others:
  assumes "\<forall>l\<in>set ls. other_layer l"
  shows "layer_loop path ls = ([], Inr ())"
  using assms by (induction ls) (auto simp: layer_body_other)

section \<open>Lists indexed by a range\<close>

lemma concat_map_single:
  assumes "k < n" and "\<forall>i<n. i \<noteq> k \<longrightarrow> f i = []"
  shows "concat (map f [0..<n]) = f k"
proof -
  have split: "[0..<n] = [0..<k] @ k # [Suc k..<n]"
    using assms(1)
    by (metis le_add_diff_inverse less_imp_le_nat upt_add_eq_append upt_conv_Cons
        less_eq_nat.simps(1))
  have a: "concat (map f [0..<k]) = []" using assms by auto
  have b: "concat (map f [Suc k..<n]) = []" using assms by auto
  show ?thesis unfolding split by (simp add: a b)
qed

lemma filter_row_major:
  assumes "i < length g" and "j < length (g ! i)"
  shows "filter (line_at i j) (row_major_lines g)
           = (if sentinel (g ! i ! j) then [] else [cell_line i j (g ! i ! j)])"
proof -
  let ?inner = "\<lambda>i' j'. filter (line_at i j) (if sentinel (g ! i' ! j') then [] else [cell_line i' j' (g ! i' ! j')])"
  let ?row = "\<lambda>i'. concat (map (?inner i') [0..<length (g ! i')])"
  have eq: "filter (line_at i j) (row_major_lines g) = concat (map ?row [0..<length g])"
    by (simp add: row_major_lines_def filter_concat comp_def)
  have other_rows: "\<forall>i'<length g. i' \<noteq> i \<longrightarrow> ?row i' = []"
    by (auto simp: cell_line_def)
  have other_cols: "\<forall>j'<length (g ! i). j' \<noteq> j \<longrightarrow> ?inner i j' = []"
    by (auto simp: cell_line_def)
  have "concat (map ?row [0..<length g]) = ?row i"
    by (rule concat_map_single [OF assms(1) other_rows])
  also have "?row i = ?inner i j"
    by (rule concat_map_single [OF assms(2) other_cols])
  also have "\<dots> = (if sentinel (g ! i ! j) then [] else [cell_line i j (g ! i ! j)])"
    by (simp add: cell_line_def)
  finally show ?thesis using eq by simp
qed

lemma single_marker:
  assumes "k < length g" and "m < length (g ! k)" 
    and "\<forall>i<length g. \<forall>j<length (g ! i). (i, j) \<noteq> (k, m) \<longrightarrow> sentinel (g ! i ! j)"
  shows "row_major_lines g = (if sentinel (g ! k ! m) then [] else [cell_line k m (g ! k ! m)])"
proof -
  let ?inner = "\<lambda>i' j'. (if sentinel (g ! i' ! j') then [] else [cell_line i' j' (g ! i' ! j')])"
  let ?row = "\<lambda>i'. concat (map (?inner i') [0..<length (g ! i')])"
  have other_rows: "\<forall>i'<length g. i' \<noteq> k \<longrightarrow> ?row i' = []"
    using assms(3) by auto
  have other_cols: "\<forall>j'<length (g ! k). j' \<noteq> m \<longrightarrow> ?inner k j' = []"
    using assms(1,3) by auto
  have "row_major_lines g = concat (map ?row [0..<length g])"
    by (simp add: row_major_lines_def)
  also have "\<dots> = ?row k"
    by (rule concat_map_single [OF assms(1) other_rows])
  also have "?row k = ?inner k m"
    by (rule concat_map_single [OF assms(2) other_cols])
  finally show ?thesis .
qed

lemma all_sentinel:
  assumes "\<forall>row\<in>set g. \<forall>v\<in>set row. sentinel v"
  shows "row_major_lines g = []" and "marker_count g = 0"
proof -
  show m: "marker_count g = 0" using assms by (induction g) (auto simp: marker_count_def)
  show "row_major_lines g = []" using m row_major_lines_length [of g] by simp
qed

section \<open>What any run prints\<close>

lemma report_layers:
  assumes "layers_of d = Inr ls"
  shows "report path d = layer_loop path ls"
  using assms by (auto simp: layers_of_def report_def split: sum.splits)

lemma marker_key:
  assumes "is_marker val" and "py_hashable val = Inr v"
  shows "int_key v \<noteq> Some 0"
  using assms by (cases val) auto

lemma names_get_NONE:
  assumes "names_get v = ''NONE''"
  shows "int_key v = Some 0"
proof (cases "int_key v")
  case None
  then show ?thesis using assms by (simp add: names_get_def)
next
  case (Some n)
  show ?thesis
  proof (cases "map_of hot_spot_names n")
    case None
    then show ?thesis using assms Some by (simp add: names_get_def)
  next
    case (Some name)
    then have "map_of hot_spot_names n = Some ''NONE''"
      using assms \<open>int_key v = Some n\<close> by (simp add: names_get_def)
    then have "n = 0"
      by (simp add: hot_spot_names_def split: if_splits)
    then show ?thesis using \<open>int_key v = Some n\<close> by simp
  qed
qed

lemma col_loop_lines:
  assumes "l \<in> set (fst (col_loop r c vals n))"
  shows "\<exists>c' v. l = CellLine r c' v (names_get v) (c' * 32) (r * 32) \<and> int_key v \<noteq> Some 0"
  using assms
proof (induction vals arbitrary: c n)
  case Nil
  then show ?case by simp
next
  case (Cons val rest)
  show ?case
  proof (cases "is_marker val")
    case False
    then show ?thesis using Cons by simp
  next
    case True
    show ?thesis
    proof (cases "py_hashable val")
      case (Inl e)
      then show ?thesis using Cons.prems True by simp
    next
      case (Inr v)
      then have "l = CellLine r c v (names_get v) (c * 32) (r * 32)
                 \<or> l \<in> set (fst (col_loop r (Suc c) rest (n + 1)))"
        using Cons.prems True by (auto split: prod.splits)
      then show ?thesis using Cons.IH marker_key [OF True Inr] by blast
    qed
  qed
qed

lemma row_loop_lines:
  assumes "l \<in> set (fst (row_loop r rows n))"
  shows "\<exists>r' c' v. l = CellLine r' c' v (names_get v) (c' * 32) (r' * 32) \<and> int_key v \<noteq> Some 0"
  using assms
proof (induction rows arbitrary: r n)
  case Nil
  then show ?case by simp
next
  case (Cons row rest)
  show ?case
  proof (cases "py_iter row")
    case (Inl e)
    then show ?thesis using Cons.prems by simp
  next
    case (Inr vals)
    obtain out res where cl: "col_loop r 0 vals n = (out, res)" by (cases "col_loop r 0 vals n")
    show ?thesis
    proof (cases res)
      case (Inl e)
      then have "l \<in> set (fst (col_loop r 0 vals n))" using Cons.prems Inr cl by simp
      then show ?thesis using col_loop_lines by blast
    next
      case (Inr n')
      then have "l \<in> set (fst (col_loop r 0 vals n)) \<or> l \<in> set (fst (row_loop (Suc r) rest n'))"
        using Cons.prems \<open>py_iter row = Inr vals\<close> cl by (auto split: prod.splits)
      then show ?thesis using col_loop_lines Cons.IH by blast
    qed
  qed
qed

lemma layer_body_lines:
  assumes "CellLine r c v name x y \<in> set (fst (layer_body path layer))"
  shows "name = names_get v \<and> x = c * 32 \<and> y = r * 32 \<and> int_key v \<noteq> Some 0"
proof -
  have cell: "name = names_get v \<and> x = c * 32 \<and> y = r * 32 \<and> int_key v \<noteq> Some 0"
    if "row_loop 0 rows 0 = (out, res)" and "CellLine r c v name x y \<in> set out" for rows out res
  proof -
    have "CellLine r c v name x y \<in> set (fst (row_loop 0 rows 0))" using that by simp
    then show ?thesis using row_loop_lines by blast
  qed
  show ?thesis
    using assms
    by (auto simp: layer_body_def split: sum.splits if_splits prod.splits dest: cell)
qed

lemma layer_loop_lines:
  assumes "l \<in> set (fst (layer_loop path ls))"
  shows "\<exists>layer. l \<in> set (fst (layer_body path layer))"
  using assms
proof (induction ls)
  case Nil
  then show ?case by simp
next
  case (Cons layer rest)
  then have "l \<in> set (fst (layer_body path layer)) \<or> l \<in> set (fst (layer_loop path rest))"
    by (auto split: prod.splits sum.splits)
  then show ?case using Cons.IH by blast
qed

lemma report_lines:
  assumes "CellLine r c v name x y \<in> set (fst (report path d))"
  shows "name = names_get v \<and> x = c * 32 \<and> y = r * 32 \<and> int_key v \<noteq> Some 0"
proof -
  obtain ls where "CellLine r c v name x y \<in> set (fst (layer_loop path ls))"
    using assms by (auto simp: report_def split: sum.splits)
  then show ?thesis using layer_loop_lines layer_body_lines by blast
qed

lemma layer_loop_skip:
  assumes "other_layer l"
  shows "layer_loop path (pre @ l # post) = layer_loop path (pre @ post)"
  by (induction pre) (auto simp: layer_body_other [OF assms] split: prod.splits sum.splits)

lemma concat_map_filter:
  assumes "\<forall>x\<in>set xs. \<not> P x \<longrightarrow> f x = []"
  shows "concat (map f xs) = concat (map f (filter P xs))"
  using assms by (induction xs) auto

lemma layer_loop_single:
  assumes "\<forall>l\<in>set (pre @ post). other_layer l"
  shows "layer_loop path (pre @ layer # post) = layer_body path layer"
proof -
  have pre: "layer_loop path pre = ([], Inr ())" and post: "layer_loop path post = ([], Inr ())"
    using assms by (simp_all add: layer_loop_others)
  have "layer_loop path (pre @ layer # post) = layer_loop path (layer # post)"
    using layer_loop_append [of path pre "layer # post"] pre by simp
  also have "\<dots> = layer_body path layer"
    by (cases "layer_body path layer") (auto simp: post split: sum.splits)
  finally show ?thesis .
qed

section \<open>Row-major order\<close>

lemma sorted_wrt_concat_upt:
  assumes each: "\<And>i. i < n \<Longrightarrow> sorted_wrt R (f i)"
    and cross: "\<And>i j a b. i < j \<Longrightarrow> j < n \<Longrightarrow> a \<in> set (f i) \<Longrightarrow> b \<in> set (f j) \<Longrightarrow> R a b"
  shows "sorted_wrt R (concat (map f [0..<n]))"
  using assms
proof (induction n)
  case 0
  then show ?case by simp
next
  case (Suc n)
  have "sorted_wrt R (concat (map f [0..<n]))"
    by (rule Suc.IH) (simp_all add: Suc.prems)
  moreover have "sorted_wrt R (f n)" by (simp add: Suc.prems(1))
  moreover have "R a b" if earlier: "a \<in> set (concat (map f [0..<n]))" and last: "b \<in> set (f n)"
    for a b
  proof -
    obtain i where "i < n" and "a \<in> set (f i)" using earlier by auto
    then show ?thesis using Suc.prems(2) [of i n a b] last by simp
  qed
  ultimately show ?case by (simp add: sorted_wrt_append)
qed

lemma row_major_lines_sorted: "sorted_wrt row_major_before (row_major_lines g)"
  unfolding row_major_lines_def
proof (rule sorted_wrt_concat_upt)
  fix i
  show "sorted_wrt row_major_before
          (concat (map (\<lambda>j. if sentinel (g ! i ! j) then [] else [cell_line i j (g ! i ! j)])
             [0..<length (g ! i)]))"
    by (rule sorted_wrt_concat_upt) (auto simp: row_major_before_def cell_line_def split: if_splits)
next
  fix i j a b
  assume "i < j"
    and "a \<in> set (concat (map (\<lambda>ja. if sentinel (g ! i ! ja) then [] else [cell_line i ja (g ! i ! ja)])
                         [0..<length (g ! i)]))"
    and "b \<in> set (concat (map (\<lambda>ja. if sentinel (g ! j ! ja) then [] else [cell_line j ja (g ! j ! ja)])
                         [0..<length (g ! j)]))"
  then show "row_major_before a b"
    by (auto simp: row_major_before_def cell_line_def split: if_splits)
qed

section \<open>The claims of the specification\<close>

text \<open>
  Claim C1, as amended. The loop of line 21 has no \<open>break\<close>: in a document whose layers
  are all processed without an exception, every layer whose \<open>type\<close> equals
  \<open>"hot_spots"\<close> gets its own report (header, cell lines, total), in document order, and
  the layers of any other type contribute no line. The output is the concatenation of
  the reports of the hot-spots layers.
\<close>

theorem every_hot_spots_layer_reported:
  assumes "layers_of d = Inr ls"
    and "\<forall>l\<in>set ls. snd (layer_body path l) = Inr ()"
  shows "report path d
           = (concat (map (\<lambda>l. fst (layer_body path l)) (filter is_hot_spots ls)), Inr ())"
proof -
  have empty: "\<forall>l\<in>set ls. \<not> is_hot_spots l \<longrightarrow> fst (layer_body path l) = []"
    using layer_body_not_hot_spots by blast
  have "report path d = (concat (map (\<lambda>l. fst (layer_body path l)) ls), Inr ())"
    using report_layers [OF assms(1)] layer_loop_ok [OF assms(2)] by simp
  then show ?thesis using concat_map_filter [OF empty] by simp
qed

theorem every_hot_spots_layer_reported_witness:
  "report ''a.json''
     (JObject [(''layers'', JArray
        [JObject [(''type'', JString ''hot_spots''), (''world'', JObject [(''tiles'', tiles_of [[1]])])],
         JObject [(''type'', JString ''background'')],
         JObject [(''type'', JString ''hot_spots''), (''world'', JObject [(''tiles'', tiles_of [[0, 2]])])]])])
   = ([HeaderLine ''a.json'', CellLine 0 0 (SInt 1) ''GO_RIGHT'' 0 0, TotalLine 1,
       HeaderLine ''a.json'', CellLine 0 1 (SInt 2) ''GO_LEFT'' 32 0, TotalLine 1], Inr ())"
proof -
  let ?l1 = "JObject [(''type'', JString ''hot_spots''), (''world'', JObject [(''tiles'', tiles_of [[1]])])]"
  let ?l2 = "JObject [(''type'', JString ''background'')]"
  let ?l3 = "JObject [(''type'', JString ''hot_spots''), (''world'', JObject [(''tiles'', tiles_of [[0, 2]])])]"
  let ?d = "JObject [(''layers'', JArray [?l1, ?l2, ?l3])]"
  have a: "layers_of ?d = Inr [?l1, ?l2, ?l3]" by (simp add: layers_of_def)
  have b: "\<forall>l\<in>set [?l1, ?l2, ?l3]. snd (layer_body ''a.json'' l) = Inr ()"
    by (simp add: layer_body_def tiles_of_def)
  show ?thesis
    using every_hot_spots_layer_reported [OF a b]
    by (simp add: is_hot_spots_def layer_body_def tiles_of_def names_get_def hot_spot_names_def)
qed

text \<open>
  The reading "the report comes from the first hot-spots layer only" fails on a document
  with two hot-spots layers: the first such layer is found, its report is three lines
  long, and the run prints six lines, the last three from the second layer.
\<close>

theorem first_layer_only_counterexample:
  "layers_of (JObject [(''layers'', JArray
        [JObject [(''type'', JString ''hot_spots''), (''world'', JObject [(''tiles'', tiles_of [[1]])])],
         JObject [(''type'', JString ''hot_spots''), (''world'', JObject [(''tiles'', tiles_of [[2]])])]])])
     = Inr [JObject [(''type'', JString ''hot_spots''), (''world'', JObject [(''tiles'', tiles_of [[1]])])],
         JObject [(''type'', JString ''hot_spots''), (''world'', JObject [(''tiles'', tiles_of [[2]])])]]
   \<and> find is_hot_spots
        [JObject [(''type'', JString ''hot_spots''), (''world'', JObject [(''tiles'', tiles_of [[1]])])],
         JObject [(''type'', JString ''hot_spots''), (''world'', JObject [(''tiles'', tiles_of [[2]])])]]
     = Some (JObject [(''type'', JString ''hot_spots''), (''world'', JObject [(''tiles'', tiles_of [[1]])])])
   \<and> fst (layer_body ''a.json''
        (JObject [(''type'', JString ''hot_spots''), (''world'', JObject [(''tiles'', tiles_of [[1]])])]))
     = [HeaderLine ''a.json'', CellLine 0 0 (SInt 1) ''GO_RIGHT'' 0 0, TotalLine 1]
   \<and> fst (report ''a.json'' (JObject [(''layers'', JArray
        [JObject [(''type'', JString ''hot_spots''), (''world'', JObject [(''tiles'', tiles_of [[1]])])],
         JObject [(''type'', JString ''hot_spots''), (''world'', JObject [(''tiles'', tiles_of [[2]])])]])]))
     = [HeaderLine ''a.json'', CellLine 0 0 (SInt 1) ''GO_RIGHT'' 0 0, TotalLine 1,
        HeaderLine ''a.json'', CellLine 0 0 (SInt 2) ''GO_LEFT'' 0 0, TotalLine 1]"
  by (simp add: layers_of_def is_hot_spots_def report_def layer_body_def tiles_of_def
      names_get_def hot_spot_names_def)

text \<open>
  Claim C2. In a hot-spots layer with grid \<open>g\<close>, the cell at row \<open>i\<close>, column \<open>j\<close> has
  exactly one output line if its value is neither -1 nor 0 and none otherwise; one step of
  the column loop on an integer cell prints the line and passes on \<open>count + 1\<close> exactly
  in that case; the values -2 and -3 are printed with the labels DEATH and COLLECT and
  counted.
\<close>

theorem marker_cells_printed_and_counted:
  assumes "hot_spots_grid layer g" and "i < length g" and "j < length (g ! i)"
  shows "filter (line_at i j) (fst (layer_body path layer))
           = (if g ! i ! j \<noteq> - 1 \<and> g ! i ! j \<noteq> 0 then [cell_line i j (g ! i ! j)] else [])
         \<and> col_loop r c (JInt v # rest) n
           = (if v \<noteq> - 1 \<and> v \<noteq> 0
              then (cell_line r c v # fst (col_loop r (Suc c) rest (Suc n)),
                    snd (col_loop r (Suc c) rest (Suc n)))
              else col_loop r (Suc c) rest n)
         \<and> col_loop r c [JInt (- 2)] n
           = ([CellLine r c (SInt (- 2)) ''DEATH'' (c * 32) (r * 32)], Inr (Suc n))
         \<and> col_loop r c [JInt (- 3)] n
           = ([CellLine r c (SInt (- 3)) ''COLLECT'' (c * 32) (r * 32)], Inr (Suc n))"
proof -
  have a: "filter (line_at i j) (fst (layer_body path layer))
           = (if g ! i ! j \<noteq> - 1 \<and> g ! i ! j \<noteq> 0 then [cell_line i j (g ! i ! j)] else [])"
    using filter_row_major [OF assms(2,3)]
    by (simp add: layer_body_grid [OF assms(1)] sentinel_def)
  have b: "col_loop r c (JInt v # rest) n
           = (if v \<noteq> - 1 \<and> v \<noteq> 0
              then (cell_line r c v # fst (col_loop r (Suc c) rest (Suc n)),
                    snd (col_loop r (Suc c) rest (Suc n)))
              else col_loop r (Suc c) rest n)"
    by (simp add: cell_line_def split: prod.splits)
  have c: "col_loop r c [JInt (- 2)] n
           = ([CellLine r c (SInt (- 2)) ''DEATH'' (c * 32) (r * 32)], Inr (Suc n))"
    by (simp add: names_get_def hot_spot_names_def)
  have d: "col_loop r c [JInt (- 3)] n
           = ([CellLine r c (SInt (- 3)) ''COLLECT'' (c * 32) (r * 32)], Inr (Suc n))"
    by (simp add: names_get_def hot_spot_names_def)
  show ?thesis using a b c d by blast
qed

theorem marker_cells_printed_and_counted_witness:
  "filter (line_at 0 1)
     (fst (layer_body ''a.json''
        (JObject [(''type'', JString ''hot_spots''),
                  (''world'', JObject [(''tiles'', tiles_of [[0, - 2], [- 1, - 3]])])])))
   = [CellLine 0 1 (SInt (- 2)) ''DEATH'' 32 0]
   \<and> filter (line_at 1 0)
     (fst (layer_body ''a.json''
        (JObject [(''type'', JString ''hot_spots''),
                  (''world'', JObject [(''tiles'', tiles_of [[0, - 2], [- 1, - 3]])])])))
   = []"
proof -
  let ?g = "[[0, - 2], [- 1, - 3 :: int]]"
  let ?layer = "JObject [(''type'', JString ''hot_spots''),
                  (''world'', JObject [(''tiles'', tiles_of ?g)])]"
  have h: "hot_spots_grid ?layer ?g" by (simp add: hot_spots_grid_def is_hot_spots_def)
  have i0: "0 < length ?g" and j1: "1 < length (?g ! 0)" by simp_all
  have i1: "1 < length ?g" and j0: "0 < length (?g ! 1)" by simp_all
  show ?thesis
    using marker_cells_printed_and_counted [OF h i0 j1, of "''a.json''"]
          marker_cells_printed_and_counted [OF h i1 j0, of "''a.json''"]
    by (simp add: cell_line_def names_get_def hot_spot_names_def)
qed

text \<open>
  Claim C3. For a hot-spots grid whose only cell that is not a sentinel has value 1 and
  sits at row 2, column 3, the report is the header, the line
  \<open>[2][3] = 1 (GO_RIGHT) -> pixel (96, 64)\<close> (printed after two spaces of indentation) and
  \<open>Total: 1 hot spots\<close>. In every cell line of every run, \<open>pixel_x\<close> is the column index
  times 32 and \<open>pixel_y\<close> the row index times 32.
\<close>

theorem single_go_right_cell:
  assumes "hot_spots_grid layer g"
    and "2 < length g" and "3 < length (g ! 2)" and "g ! 2 ! 3 = 1"
    and "\<forall>i<length g. \<forall>j<length (g ! i). (i, j) \<noteq> (2, 3) \<longrightarrow> sentinel (g ! i ! j)"
  shows "map render (fst (layer_body path layer))
           = [''Hot spots in '' @ path @ '':'',
              ''  [2][3] = 1 (GO_RIGHT) -> pixel (96, 64)'',
              ''Total: 1 hot spots'']
         \<and> layer_body path layer
           = ([HeaderLine path, CellLine 2 3 (SInt 1) ''GO_RIGHT'' 96 64, TotalLine 1], Inr ())
         \<and> (CellLine row_idx col_idx val name pixel_x pixel_y \<in> set (fst (report file d))
              \<longrightarrow> pixel_x = col_idx * 32 \<and> pixel_y = row_idx * 32)"
proof -
  have one: "row_major_lines g = [cell_line 2 3 1]"
    using single_marker [OF assms(2,3,5)] assms(4) by (simp add: sentinel_def)
  then have count: "marker_count g = 1"
    using row_major_lines_length [of g] by simp
  have name: "names_get (SInt 1) = ''GO_RIGHT''"
    by (simp add: names_get_def hot_spot_names_def)
  have body: "layer_body path layer
           = ([HeaderLine path, CellLine 2 3 (SInt 1) ''GO_RIGHT'' 96 64, TotalLine 1], Inr ())"
    by (simp add: layer_body_grid [OF assms(1)] one count cell_line_def name)
  have s2: "str_nat 2 = ''2''" and s3: "str_nat 3 = ''3''" and s1: "str_nat 1 = ''1''"
    and s96: "str_nat 96 = ''96''" and s64: "str_nat 64 = ''64''"
    by code_simp+
  have s1': "str_nat (Suc 0) = ''1''" by code_simp
  have i1: "str_int 1 = ''1''" by code_simp
  have shown: "map render (fst (layer_body path layer))
           = [''Hot spots in '' @ path @ '':'',
              ''  [2][3] = 1 (GO_RIGHT) -> pixel (96, 64)'',
              ''Total: 1 hot spots'']"
    by (simp add: body s1 s1' s2 s3 s96 s64 i1)
  have pixel: "CellLine row_idx col_idx val name pixel_x pixel_y \<in> set (fst (report file d))
              \<longrightarrow> pixel_x = col_idx * 32 \<and> pixel_y = row_idx * 32"
    using report_lines by blast
  show ?thesis using shown body pixel by blast
qed

theorem single_go_right_cell_witness:
  "map render (fst (layer_body ''a.json''
      (JObject [(''type'', JString ''hot_spots''),
                (''world'', JObject [(''tiles'', tiles_of [[0, - 1, 0, 0], [0, 0, 0, 0], [- 1, 0, 0, 1]])])])))
   = [''Hot spots in a.json:'', ''  [2][3] = 1 (GO_RIGHT) -> pixel (96, 64)'', ''Total: 1 hot spots'']"
proof -
  let ?g = "[[0, - 1, 0, 0], [0, 0, 0, 0], [- 1, 0, 0, 1 :: int]]"
  let ?layer = "JObject [(''type'', JString ''hot_spots''),
                (''world'', JObject [(''tiles'', tiles_of ?g)])]"
  have h: "hot_spots_grid ?layer ?g" by (simp add: hot_spots_grid_def is_hot_spots_def)
  have a: "2 < length ?g" and b: "3 < length (?g ! 2)" and c: "?g ! 2 ! 3 = 1" by simp_all
  have d: "\<forall>i<length ?g. \<forall>j<length (?g ! i). (i, j) \<noteq> (2, 3) \<longrightarrow> sentinel (?g ! i ! j)"
    by (auto simp: sentinel_def less_Suc_eq nth_Cons' numeral_3_eq_3 numeral_2_eq_2)
  have e: "''Hot spots in '' @ ''a.json'' @ '':'' = ''Hot spots in a.json:''" by simp
  show ?thesis
    using conjunct1 [OF single_go_right_cell [OF h a b c d, of "''a.json''"]] unfolding e .
qed

text \<open>
  Claim C4. A document with no layer whose \<open>type\<close> equals \<open>"hot_spots"\<close> prints nothing;
  when its layers are records with a \<open>type\<close>, as the data model has them, the run also
  ends without an exception.
\<close>

theorem no_hot_spots_layer_prints_nothing:
  assumes "layers_of d = Inr ls" and "\<forall>l\<in>set ls. \<not> is_hot_spots l"
  shows "fst (report path d) = [] \<and> stdout (fst (report path d)) = []
         \<and> ((\<forall>l\<in>set ls. other_layer l) \<longrightarrow> report path d = ([], Inr ()))"
proof -
  have quiet: "fst (report path d) = []"
    using report_layers [OF assms(1)] layer_loop_no_hot_spots [OF assms(2)] by simp
  have ends: "report path d = ([], Inr ())" if "\<forall>l\<in>set ls. other_layer l"
    using report_layers [OF assms(1)] layer_loop_others [OF that] by simp
  show ?thesis using quiet ends by (simp add: stdout_def)
qed

theorem no_hot_spots_layer_prints_nothing_witness:
  "report ''a.json''
     (JObject [(''layers'', JArray
        [JObject [(''type'', JString ''background''), (''world'', JObject [(''tiles'', tiles_of [[7]])])],
         JObject [(''type'', JString ''objects'')]])]) = ([], Inr ())"
proof -
  let ?ls = "[JObject [(''type'', JString ''background''), (''world'', JObject [(''tiles'', tiles_of [[7]])])],
         JObject [(''type'', JString ''objects'')]]"
  have a: "layers_of (JObject [(''layers'', JArray ?ls)]) = Inr ?ls" by (simp add: layers_of_def)
  have b: "\<forall>l\<in>set ?ls. \<not> is_hot_spots l" by (simp add: is_hot_spots_def)
  have c: "\<forall>l\<in>set ?ls. other_layer l" by (simp add: other_layer_def)
  show ?thesis using no_hot_spots_layer_prints_nothing [OF a b, of "''a.json''"] c by blast
qed

text \<open>
  Claim C5. For a document whose hot-spots layer has a grid of sentinel values only, and
  whose other layers have another \<open>type\<close>, the whole output is the header line followed
  by the line \<open>Total: 0 hot spots\<close>.
\<close>

theorem all_sentinel_grid_header_and_total:
  assumes "layers_of d = Inr (pre @ layer # post)"
    and "\<forall>l\<in>set (pre @ post). other_layer l"
    and "hot_spots_grid layer g"
    and "\<forall>row\<in>set g. \<forall>v\<in>set row. sentinel v"
  shows "report path d = ([HeaderLine path, TotalLine 0], Inr ())
         \<and> map render (fst (report path d))
             = [''Hot spots in '' @ path @ '':'', ''Total: 0 hot spots'']
         \<and> stdout (fst (report path d))
             = ''Hot spots in '' @ path @ '':'' @ [CHR 0x0A] @ ''Total: 0 hot spots'' @ [CHR 0x0A]"
proof -
  have "report path d = layer_body path layer"
    using report_layers [OF assms(1)] layer_loop_single [OF assms(2)] by simp
  then have run: "report path d = ([HeaderLine path, TotalLine 0], Inr ())"
    using layer_body_grid [OF assms(3)] all_sentinel [OF assms(4)] by simp
  have zero: "str_nat 0 = ''0''" by code_simp
  show ?thesis by (simp add: run stdout_def zero)
qed

theorem all_sentinel_grid_header_and_total_witness:
  "stdout (fst (report ''a.json''
     (JObject [(''layers'', JArray
        [JObject [(''type'', JString ''background'')],
         JObject [(''type'', JString ''hot_spots''),
                  (''world'', JObject [(''tiles'', tiles_of [[0, - 1], [- 1, 0]])])],
         JObject [(''type'', JString ''objects'')]])])))
   = ''Hot spots in a.json:'' @ [CHR 0x0A] @ ''Total: 0 hot spots'' @ [CHR 0x0A]"
proof -
  let ?g = "[[0, - 1], [- 1, 0 :: int]]"
  let ?pre = "[JObject [(''type'', JString ''background'')]]"
  let ?layer = "JObject [(''type'', JString ''hot_spots''),
                  (''world'', JObject [(''tiles'', tiles_of ?g)])]"
  let ?post = "[JObject [(''type'', JString ''objects'')]]"
  have a: "layers_of (JObject [(''layers'', JArray (?pre @ ?layer # ?post))]) = Inr (?pre @ ?layer # ?post)"
    by (simp add: layers_of_def)
  have b: "\<forall>l\<in>set (?pre @ ?post). other_layer l" by (simp add: other_layer_def)
  have c: "hot_spots_grid ?layer ?g" by (simp add: hot_spots_grid_def is_hot_spots_def)
  have d: "\<forall>row\<in>set ?g. \<forall>v\<in>set row. sentinel v" by (simp add: sentinel_def)
  have e: "''Hot spots in '' @ ''a.json'' @ '':'' @ [CHR 0x0A] @ ''Total: 0 hot spots'' @ [CHR 0x0A]
             = ''Hot spots in a.json:'' @ [CHR 0x0A] @ ''Total: 0 hot spots'' @ [CHR 0x0A]" by simp
  have f: "[JObject [(''type'', JString ''background'')],
         JObject [(''type'', JString ''hot_spots''),
                  (''world'', JObject [(''tiles'', tiles_of [[0, - 1], [- 1, 0]])])],
         JObject [(''type'', JString ''objects'')]] = ?pre @ ?layer # ?post" by simp
  show ?thesis
    using all_sentinel_grid_header_and_total [OF a b c d, of "''a.json''"]
    unfolding e f by blast
qed

text \<open>
  Claim C6. The report of a hot-spots layer with grid \<open>g\<close> is the header, then one line
  for each cell that is not a sentinel, rows by ascending index and columns by ascending
  index within a row, then the total, which is the number of cells that are neither -1
  nor 0. The cell lines are strictly ascending in row-major order; nothing is sorted and
  equal values at different cells each keep their line.
\<close>

theorem scan_is_row_major:
  assumes "hot_spots_grid layer g"
  shows "layer_body path layer
           = (HeaderLine path # row_major_lines g @ [TotalLine (marker_count g)], Inr ())
         \<and> sorted_wrt row_major_before (row_major_lines g)"
  by (simp add: layer_body_grid [OF assms] row_major_lines_sorted)

theorem scan_is_row_major_witness:
  "layer_body ''a.json''
     (JObject [(''type'', JString ''hot_spots''),
               (''world'', JObject [(''tiles'', tiles_of [[0, 5, 5], [3, - 1, 1]])])])
   = ([HeaderLine ''a.json'',
       CellLine 0 1 (SInt 5) ''GO_UP_RIGHT'' 32 0,
       CellLine 0 2 (SInt 5) ''GO_UP_RIGHT'' 64 0,
       CellLine 1 0 (SInt 3) ''GO_UP'' 0 32,
       CellLine 1 2 (SInt 1) ''GO_RIGHT'' 64 32,
       TotalLine 4], Inr ())"
proof -
  let ?g = "[[0, 5, 5], [3, - 1, 1 :: int]]"
  let ?layer = "JObject [(''type'', JString ''hot_spots''),
               (''world'', JObject [(''tiles'', tiles_of ?g)])]"
  have h: "hot_spots_grid ?layer ?g" by (simp add: hot_spots_grid_def is_hot_spots_def)
  have lines: "row_major_lines ?g
     = [CellLine 0 1 (SInt 5) ''GO_UP_RIGHT'' 32 0,
       CellLine 0 2 (SInt 5) ''GO_UP_RIGHT'' 64 0,
       CellLine 1 0 (SInt 3) ''GO_UP'' 0 32,
       CellLine 1 2 (SInt 1) ''GO_RIGHT'' 64 32]"
    by (simp add: row_major_lines_def sentinel_def cell_line_def names_get_def hot_spot_names_def
        upt_rec numeral_2_eq_2 numeral_3_eq_3)
  have count: "marker_count ?g = 4" by (simp add: marker_count_def sentinel_def)
  show ?thesis
    using conjunct1 [OF scan_is_row_major [OF h, of "''a.json''"]] by (simp add: lines count)
qed

text \<open>
  Claim C7. A cell value that is neither -1 nor 0 and is not a key of \<open>hot_spot_names\<close>
  is printed with the label \<open>TYPE_\<close> followed by its decimal digits; 42 gives
  \<open>TYPE_42\<close>.
\<close>

theorem unmapped_code_label:
  assumes "v \<noteq> - 1" and "v \<noteq> 0" and "map_of hot_spot_names v = None"
  shows "names_get (SInt v) = ''TYPE_'' @ str_int v
         \<and> col_loop r c [JInt v] n
             = ([CellLine r c (SInt v) (''TYPE_'' @ str_int v) (c * 32) (r * 32)], Inr (Suc n))"
  using assms by (simp add: names_get_def)

theorem unmapped_code_label_witness:
  "col_loop 0 0 [JInt 42] 0 = ([CellLine 0 0 (SInt 42) ''TYPE_42'' 0 0], Inr 1)
   \<and> names_get (SInt 42) = ''TYPE_42''"
proof -
  have a: "(42 :: int) \<noteq> - 1" and b: "(42 :: int) \<noteq> 0" by simp_all
  have c: "map_of hot_spot_names 42 = None" by (simp add: hot_spot_names_def)
  have s: "str_int 42 = ''42''" by code_simp
  show ?thesis using unmapped_code_label [OF a b c, of 0 0 0] by (simp add: s)
qed

text \<open>
  Claim C9. No cell line of any run, on any document, carries the label \<open>NONE\<close>: the
  table gives \<open>NONE\<close> to the code 0, and a cell of value 0 is not a marker.
\<close>

theorem none_label_never_printed:
  assumes "CellLine row_idx col_idx val name pixel_x pixel_y \<in> set (fst (report path d))"
  shows "name \<noteq> ''NONE'' \<and> map_of hot_spot_names 0 = Some ''NONE'' \<and> \<not> is_marker (JInt 0)"
proof -
  have "name = names_get val" and "int_key val \<noteq> Some 0"
    using report_lines [OF assms] by simp_all
  then have "name \<noteq> ''NONE''" using names_get_NONE [of val] by auto
  then show ?thesis by (simp add: hot_spot_names_def)
qed

theorem none_label_never_printed_witness:
  "CellLine 0 1 (SInt 1) ''GO_RIGHT'' 32 0
     \<in> set (fst (report ''a.json''
         (JObject [(''layers'', JArray
            [JObject [(''type'', JString ''hot_spots''),
                      (''world'', JObject [(''tiles'', tiles_of [[0, 1]])])]])])))
   \<and> ''GO_RIGHT'' \<noteq> ''NONE''"
proof -
  have a: "CellLine 0 1 (SInt 1) ''GO_RIGHT'' 32 0
     \<in> set (fst (report ''a.json''
         (JObject [(''layers'', JArray
            [JObject [(''type'', JString ''hot_spots''),
                      (''world'', JObject [(''tiles'', tiles_of [[0, 1]])])]])])))"
    by (simp add: report_def layer_body_def tiles_of_def names_get_def hot_spot_names_def)
  show ?thesis using a none_label_never_printed [OF a] by simp
qed

text \<open>
  Claim C10. A layer that has a \<open>type\<close> other than \<open>"hot_spots"\<close> prints nothing and
  raises nothing, whatever its other fields are and whether or not it has \<open>world\<close> or
  \<open>tiles\<close>: removing it from the layers, or putting any other such layer in its place,
  leaves the run unchanged.
\<close>

theorem other_layers_are_skipped:
  assumes "other_layer layer"
  shows "layer_body path layer = ([], Inr ())
         \<and> layer_loop path (pre @ layer # post) = layer_loop path (pre @ post)
         \<and> (other_layer layer'
              \<longrightarrow> layer_loop path (pre @ layer' # post) = layer_loop path (pre @ layer # post))"
  using layer_body_other [OF assms] layer_loop_skip [OF assms] layer_loop_skip by simp

theorem other_layers_are_skipped_witness:
  "layer_body ''a.json'' (JObject [(''type'', JString ''background'')]) = ([], Inr ())
   \<and> layer_loop ''a.json''
       [JObject [(''type'', JString ''objects''), (''world'', JInt 5), (''tiles'', JArray [JNull])]]
     = layer_loop ''a.json'' [JObject [(''type'', JString ''background'')]]"
proof -
  let ?layer = "JObject [(''type'', JString ''background'')]"
  let ?layer' = "JObject [(''type'', JString ''objects''), (''world'', JInt 5), (''tiles'', JArray [JNull])]"
  have a: "other_layer ?layer" and b: "other_layer ?layer'" by (simp_all add: other_layer_def)
  show ?thesis
    using other_layers_are_skipped [OF a, of "''a.json''" "[]" "[]" ?layer'] b by simp
qed

end
